theory Spec2Isabelle
  imports Complex_Main
begin

section \<open>Python strings and numbers used by the firmware\<close>

text \<open>
  Strings are character lists. Python floats are modelled by exact rationals: \<open>float(s)\<close>
  yields the decimal value written in \<open>s\<close> (no binary rounding, no \<open>inf\<close>/\<open>nan\<close>,
  no negative zero), negation and doubling are exact, and comparisons are those of the
  rationals. A failed conversion (\<open>ValueError\<close>) is \<open>None\<close>.
\<close>

datatype py_error = IndexError | ValueError | ZeroDivisionError

text \<open>\<open>s.split(sep)\<close> for a one-character separator: always at least one field.\<close>

fun split_on :: "char \<Rightarrow> string \<Rightarrow> string list" where
  "split_on sep [] = [[]]"
| "split_on sep (c # cs) =
     (if c = sep then [] # split_on sep cs
      else (case split_on sep cs of [] \<Rightarrow> [[c]] | w # ws \<Rightarrow> (c # w) # ws))"

text \<open>\<open>raw.split('\r\n')\<close>: the two-character separator, scanned left to right.\<close>

fun split_crlf :: "string \<Rightarrow> string list" where
  "split_crlf [] = [[]]"
| "split_crlf [c] = [[c]]"
| "split_crlf (c # d # cs) =
     (if c = CHR 0x0D \<and> d = CHR 0x0A then [] # split_crlf cs
      else (case split_crlf (d # cs) of [] \<Rightarrow> [[c]] | w # ws \<Rightarrow> (c # w) # ws))"

fun starts_with :: "string \<Rightarrow> string \<Rightarrow> bool" where
  "starts_with [] s = True"
| "starts_with (p # ps) [] = False"
| "starts_with (p # ps) (c # cs) = (p = c \<and> starts_with ps cs)"

text \<open>\<open>sub in s\<close> on strings: \<open>sub\<close> occurs as a contiguous substring of \<open>s\<close>.\<close>

fun py_in :: "string \<Rightarrow> string \<Rightarrow> bool" where
  "py_in sub [] = (sub = [])"
| "py_in sub (c # cs) = (starts_with sub (c # cs) \<or> py_in sub cs)"

definition is_digit :: "char \<Rightarrow> bool" where
  "is_digit c = (48 \<le> (of_char c :: nat) \<and> (of_char c :: nat) \<le> 57)"

definition digit_val :: "char \<Rightarrow> nat" where
  "digit_val c = (of_char c :: nat) - 48"

definition digits_val :: "string \<Rightarrow> nat" where
  "digits_val ds = foldl (\<lambda>a c. 10 * a + digit_val c) 0 ds"

definition is_space :: "char \<Rightarrow> bool" where
  "is_space c = ((of_char c :: nat) = 32 \<or> (9 \<le> (of_char c :: nat) \<and> (of_char c :: nat) \<le> 13))"

definition strip :: "string \<Rightarrow> string" where
  "strip s = rev (dropWhile is_space (rev (dropWhile is_space s)))"

fun split_sign :: "string \<Rightarrow> bool \<times> string" where
  "split_sign [] = (False, [])"
| "split_sign (c # cs) =
     (if c = CHR ''-'' then (True, cs)
      else if c = CHR ''+'' then (False, cs)
      else (False, c # cs))"

fun parse_exponent :: "string \<Rightarrow> int option" where
  "parse_exponent [] = Some 0"
| "parse_exponent (c # cs) =
     (if c = CHR ''e'' \<or> c = CHR ''E'' then
        (case split_sign cs of
           (neg, ds) \<Rightarrow>
             if ds \<noteq> [] \<and> list_all is_digit ds
             then Some (if neg then - int (digits_val ds) else int (digits_val ds))
             else None)
      else None)"

text \<open>
  \<open>float(s)\<close> on the decimal syntax: surrounding whitespace, an optional sign, digits
  with an optional fraction (at least one digit in all), an optional exponent. The
  words \<open>nan\<close>, \<open>inf\<close> and \<open>infinity\<close>, which \<open>float\<close> also accepts, have no value
  among the rationals and are \<open>None\<close> here; a decimal beyond the range of a double
  keeps its exact value.
\<close>

definition py_float :: "string \<Rightarrow> rat option" where
  "py_float s =
     (case split_sign (strip s) of
        (neg, u) \<Rightarrow>
          let ip = takeWhile is_digit u;
              r1 = dropWhile is_digit u;
              fp = (case r1 of [] \<Rightarrow> [] | c # r \<Rightarrow> if c = CHR ''.'' then takeWhile is_digit r else []);
              r2 = (case r1 of [] \<Rightarrow> [] | c # r \<Rightarrow> if c = CHR ''.'' then dropWhile is_digit r else r1);
              mant = of_nat (digits_val ip) + of_nat (digits_val fp) / 10 ^ length fp
          in if ip = [] \<and> fp = [] then None
             else (case parse_exponent r2 of
                     None \<Rightarrow> None
                   | Some e \<Rightarrow>
                       Some ((if neg then - mant else mant)
                             * (if 0 \<le> e then 10 ^ nat e else 1 / 10 ^ nat (- e)))))"

section \<open>Program state\<close>

text \<open>
  The ring buffer \<open>data_pool\<close> of \<open>GPS_WIFI_Blue_4_.py\<close>. Slots start as Python's
  \<open>None\<close>, so a slot is an option.
\<close>

record 'a data_pool =
  pool_size :: nat
  buffer :: "'a option list"
  index :: nat

text \<open>
  The module-level globals of the firmware variants, together with the fields of the
  \<open>GPSReader\<close> and \<open>BLEService\<close> objects (\<open>data_len\<close>, \<open>up_len\<close>) and the class
  attributes of \<open>DataUploader\<close>. A variant only touches the fields it declares.
\<close>

record globals =
  nmea_x :: rat
  nmea_y :: rat
  gps_data_valid :: bool
  last_x :: rat
  last_y :: rat
  ble_data_received :: bool
  user_data :: "string list"
  list_data :: "string list"
  data_len :: nat
  up_len :: nat
  pool_data :: "rat list data_pool"
  self_nmea_x :: rat
  self_nmea_y :: rat
  last_gps_time :: rat
  uploader_last_time_str :: string
  uploader_last_time_sec :: rat

definition data_pool_init :: "nat \<Rightarrow> 'a data_pool" where
  "data_pool_init n = \<lparr>pool_size = n, buffer = replicate n None, index = 0\<rparr>"

text \<open>The globals as the module initialises them (\<open>buffer_size = 10\<close> in Blue_4_).\<close>

definition globals_init :: globals where
  "globals_init =
     \<lparr>nmea_x = 0, nmea_y = 0, gps_data_valid = False, last_x = 0, last_y = 0,
      ble_data_received = False, user_data = [], list_data = [], data_len = 0,
      up_len = 0, pool_data = data_pool_init 10,
      self_nmea_x = 0, self_nmea_y = 0, last_gps_time = 0,
      uploader_last_time_str = [], uploader_last_time_sec = 0\<rparr>"

section \<open>The GLL sentence parser\<close>

text \<open>
  \<open>GPSReader._parse_gll\<close> of \<open>GPS_WIFI_Blue_3.py\<close> and \<open>GPS_WIFI_Blue_4_.py\<close> (the two
  are the same text). The whole body sits in a \<open>try\<close> that turns every exception into
  \<open>return False\<close>; \<open>now\<close> is the value of \<open>time.time()\<close> at the commit.
\<close>

definition parse_gll :: "rat \<Rightarrow> string \<Rightarrow> globals \<Rightarrow> bool \<times> globals" where
  "parse_gll now sentence g =
     (let parts = split_on (CHR '','') sentence in
      if length parts < 7 then (False, g)
      else if parts ! 6 \<noteq> ''A'' then
        (False,
         if last_x g \<noteq> 0
         then g\<lparr>nmea_x := last_x g, nmea_y := last_y g, gps_data_valid := True\<rparr>
         else g)
      else
        (case py_float (parts ! 1) of
           None \<Rightarrow> (False, g)
         | Some lat0 \<Rightarrow>
             let lat = (if py_in ''S'' (parts ! 2) then - lat0 else lat0) in
             (case py_float (parts ! 3) of
                None \<Rightarrow> (False, g)
              | Some lon0 \<Rightarrow>
                  let lon = (if py_in ''W'' (parts ! 4) then - lon0 else lon0) in
                  (True,
                   g\<lparr>self_nmea_x := lon, self_nmea_y := lat,
                     nmea_x := lon, nmea_y := lat,
                     last_x := lon, last_y := lat,
                     gps_data_valid := True, last_gps_time := now\<rparr>))))"

text \<open>
  \<open>GPSReader._parse_gll\<close> of \<open>GPS_WIFI_Blue_2.py\<close>. There is no \<open>try\<close> around the
  field access: the guard is \<open>len(parts) >= 6\<close> and the next line reads \<open>parts[6]\<close>,
  which raises \<open>IndexError\<close> when there are exactly six fields. Only \<open>ValueError\<close> is
  caught, and then control falls through to the final \<open>return False\<close>.
\<close>

definition parse_gll_v2 :: "string \<Rightarrow> globals \<Rightarrow> (py_error + bool) \<times> globals" where
  "parse_gll_v2 sentence g =
     (let parts = split_on (CHR '','') sentence in
      if length parts \<ge> 6 then
        (if \<not> 6 < length parts then (Inl IndexError, g)
         else if parts ! 6 = ''A'' then
           (case py_float (parts ! 1) of
              None \<Rightarrow> (Inr False, g)
            | Some lat0 \<Rightarrow>
                (case py_float (parts ! 3) of
                   None \<Rightarrow> (Inr False, g)
                 | Some lon0 \<Rightarrow>
                     let lat = (if py_in ''S'' (parts ! 2) then - lat0 else lat0);
                         lon = (if py_in ''W'' (parts ! 4) then - lon0 else lon0)
                     in (Inr True,
                         g\<lparr>self_nmea_y := lat, self_nmea_x := lon,
                           nmea_x := lon, nmea_y := lat,
                           last_x := lon, last_y := lat,
                           gps_data_valid := True\<rparr>)))
         else if last_x g = 0 then (Inr False, g)
         else (Inr False,
               g\<lparr>nmea_x := last_x g, nmea_y := last_y g, gps_data_valid := True\<rparr>))
      else (Inr False, g))"

text \<open>
  The \<open>for\<close> loop of \<open>read_gps_data\<close> (Blue_2) over the sentences of one chunk: it
  stops at the first sentence that commits, and an exception leaves the loop with the
  state reached so far.
\<close>

fun gps_loop_v2 :: "string list \<Rightarrow> globals \<Rightarrow> py_error option \<times> globals" where
  "gps_loop_v2 [] g = (None, g)"
| "gps_loop_v2 (s # ss) g =
     (if s \<noteq> [] \<and> py_in ''GLL'' s then
        (case parse_gll_v2 s g of
           (Inl e, g') \<Rightarrow> (Some e, g')
         | (Inr True, g') \<Rightarrow> (None, g')
         | (Inr False, g') \<Rightarrow> gps_loop_v2 ss g')
      else gps_loop_v2 ss g)"

text \<open>
  \<open>read_gps_data\<close> (Blue_2). The argument is the decoded text read from the UART, or
  \<open>None\<close> when \<open>uart.any()\<close> is false or reading or decoding raised (nothing has
  been assigned by then). The blanket \<open>except Exception\<close> only prints.
\<close>

definition read_gps_data_v2 :: "string option \<Rightarrow> globals \<Rightarrow> globals" where
  "read_gps_data_v2 uart g =
     (case uart of None \<Rightarrow> g | Some text \<Rightarrow> snd (gps_loop_v2 (split_crlf text) g))"

text \<open>The same loop and reader in Blue_3 and Blue_4_, where the parser cannot raise.\<close>

fun gps_loop :: "rat \<Rightarrow> string list \<Rightarrow> globals \<Rightarrow> globals" where
  "gps_loop now [] g = g"
| "gps_loop now (s # ss) g =
     (if s \<noteq> [] \<and> py_in ''GLL'' s then
        (case parse_gll now s g of
           (True, g') \<Rightarrow> g'
         | (False, g') \<Rightarrow> gps_loop now ss g')
      else gps_loop now ss g)"

text \<open>\<open>period\<close> is the polling period of the variant: 1.0 in Blue_3, 2.0 in Blue_4_.\<close>

definition read_gps_data :: "rat \<Rightarrow> rat \<Rightarrow> string option \<Rightarrow> globals \<Rightarrow> globals" where
  "read_gps_data period now uart g =
     (if now - last_gps_time g \<ge> period then
        (case uart of None \<Rightarrow> g | Some text \<Rightarrow> gps_loop now (split_crlf text) g)
      else g)"

text \<open>Feeding a sequence of sentences to the parser, one call each.\<close>

fun feed :: "rat \<Rightarrow> string list \<Rightarrow> globals \<Rightarrow> globals" where
  "feed now [] g = g"
| "feed now (s # ss) g = feed now ss (snd (parse_gll now s g))"

fun feed_v2 :: "string list \<Rightarrow> globals \<Rightarrow> globals" where
  "feed_v2 [] g = g"
| "feed_v2 (s # ss) g = feed_v2 ss (snd (parse_gll_v2 s g))"

section \<open>The ring buffer of Blue_4_\<close>

text \<open>
  \<open>data_pool.append\<close>: the slot assignment raises \<open>IndexError\<close> when the cursor is
  outside the list, and the modulo raises \<open>ZeroDivisionError\<close> for a pool of size 0
  (after the slot has been written).
\<close>

definition append_pool :: "'a \<Rightarrow> 'a data_pool \<Rightarrow> py_error option \<times> 'a data_pool" where
  "append_pool item p =
     (if \<not> index p < length (buffer p) then (Some IndexError, p)
      else
        let p1 = p\<lparr>buffer := (buffer p)[index p := Some item]\<rparr> in
        if pool_size p = 0 then (Some ZeroDivisionError, p1)
        else (None, p1\<lparr>index := (index p + 1) mod pool_size p\<rparr>))"

text \<open>\<open>xs[a:b]\<close> for non-negative bounds: clipped to the list, empty when \<open>b \<le> a\<close>.\<close>

definition py_slice :: "'a list \<Rightarrow> nat \<Rightarrow> nat \<Rightarrow> 'a list" where
  "py_slice xs a b = take (b - a) (drop a xs)"

text \<open>
  \<open>data_pool.get_new(n)\<close>, as a method call on the pool object: the value returned
  and the pool after the call. The method assigns to no field.
\<close>

definition get_new :: "nat \<Rightarrow> 'a data_pool \<Rightarrow> 'a option list option \<times> 'a data_pool" where
  "get_new n p =
     (if index p \<ge> n then (Some (py_slice (buffer p) (index p - n) (index p)), p)
      else (None, p))"

text \<open>
  The write event of \<open>BLEService._irq_callback\<close> (Blue_4_): the argument is the tuple
  of floats unpacked from the payload, or \<open>None\<close> when unpacking raised. Every
  exception is caught and printed.
\<close>

definition irq_write_v4 :: "rat list option \<Rightarrow> globals \<Rightarrow> globals" where
  "irq_write_v4 floats g =
     (case floats of
        None \<Rightarrow> g
      | Some item \<Rightarrow> g\<lparr>pool_data := snd (append_pool item (pool_data g))\<rparr>)"

text \<open>A sequence of pushes, each as the callback performs it.\<close>

fun pushes :: "'a list \<Rightarrow> 'a data_pool \<Rightarrow> 'a data_pool" where
  "pushes [] p = p"
| "pushes (x # xs) p = pushes xs (snd (append_pool x p))"

section \<open>The telemetry record\<close>

datatype json = JString string | JNumber rat | JNull | JArray "json list"

text \<open>A payload is a Python dict with string keys, kept as an association list.\<close>

type_synonym payload = "(string \<times> json) list"

definition digit_char :: "nat \<Rightarrow> char" where
  "digit_char d = ''0123456789'' ! d"

text \<open>The decimal digits of a natural number, as \<open>str\<close> and \<open>%d\<close> print them.\<close>

function show_nat :: "nat \<Rightarrow> string" where
  "show_nat n =
     (if n < 10 then [digit_char n]
      else show_nat (n div 10) @ [digit_char (n mod 10)])"
  by pat_completeness auto
termination
  by (relation "measure id") auto

declare show_nat.simps [simp del]

text \<open>Rounding of a non-negative rational to the nearest integer, ties to even.\<close>

definition round_half_even :: "rat \<Rightarrow> nat" where
  "round_half_even q =
     (let f = \<lfloor>q\<rfloor>; d = q - of_int f
      in nat (if d < 1 / 2 then f else if 1 / 2 < d then f + 1
              else if even f then f else f + 1))"

text \<open>
  \<open>"%.6f" % x\<close>: sign, integer part, a point and six digits of the value rounded to
  six places.
\<close>

definition format_6f :: "rat \<Rightarrow> string" where
  "format_6f x =
     (let n = round_half_even (\<bar>x\<bar> * 1000000);
          fp = show_nat (n mod 1000000)
      in (if x < 0 then ''-'' else []) @ show_nat (n div 1000000) @ ''.''
         @ replicate (6 - length fp) (CHR ''0'') @ fp)"

text \<open>
  \<open>str(x)\<close> of a float in positional notation: the shortest decimal that denotes the
  value, with at least one fractional digit (\<open>str(0.0) = '0.0'\<close>), searched up to 17
  fractional digits.
\<close>

fun find_scale :: "nat \<Rightarrow> nat \<Rightarrow> rat \<Rightarrow> nat" where
  "find_scale 0 k q = k"
| "find_scale (Suc fuel) k q =
     (if q * 10 ^ k = of_int \<lfloor>q * 10 ^ k\<rfloor> then k else find_scale fuel (Suc k) q)"

definition py_str_float :: "rat \<Rightarrow> string" where
  "py_str_float x =
     (let k = find_scale 16 1 \<bar>x\<bar>;
          n = nat \<lfloor>\<bar>x\<bar> * 10 ^ k\<rfloor>;
          fp = show_nat (n mod 10 ^ k)
      in (if x < 0 then ''-'' else []) @ show_nat (n div 10 ^ k) @ ''.''
         @ replicate (k - length fp) (CHR ''0'') @ fp)"

definition device_id :: string where
  "device_id = ''3''"

text \<open>
  \<open>DataUploader._get_current_time_str\<close>: \<open>now\<close> is \<open>time.time()\<close>, \<open>clock_str\<close> the
  formatted \<open>time.localtime()\<close>; \<open>window\<close> is 1.0 in Blue_3 and 2.0 in Blue_4_.
\<close>

definition get_current_time_str :: "rat \<Rightarrow> rat \<Rightarrow> string \<Rightarrow> globals \<Rightarrow> string \<times> globals" where
  "get_current_time_str window now clock_str g =
     (if now - uploader_last_time_sec g < window then (uploader_last_time_str g, g)
      else (clock_str,
            g\<lparr>uploader_last_time_str := clock_str, uploader_last_time_sec := now\<rparr>))"

text \<open>
  \<open>DataUploader.generate_payload\<close> of Blue_3. The samples are ASCII strings, so the
  \<open>json.dumps\<close> probe of the debug branch succeeds.
\<close>

definition generate_payload_v3 :: "rat \<Rightarrow> string \<Rightarrow> globals \<Rightarrow> payload option \<times> globals" where
  "generate_payload_v3 now clock_str g =
     (if \<not> gps_data_valid g \<or> \<not> ble_data_received g then (None, g)
      else
        (case get_current_time_str 1 now clock_str g of
           (time_str, g') \<Rightarrow>
             (Some [(''device_id'', JString device_id),
                    (''position_x'', JString (format_6f (nmea_x g'))),
                    (''position_y'', JString (format_6f (nmea_y g'))),
                    (''time_stamp'', JString time_str),
                    (''user_data'',
                       JArray (map JString
                         (if length (user_data g') > 200
                          then drop (length (user_data g') - 200) (user_data g')
                          else user_data g')))],
              g')))"

text \<open>A slot of the pool as JSON: a tuple of floats, or \<open>null\<close> for an unwritten slot.\<close>

definition json_of_slot :: "rat list option \<Rightarrow> json" where
  "json_of_slot slot = (case slot of None \<Rightarrow> JNull | Some fs \<Rightarrow> JArray (map JNumber fs))"

text \<open>
  \<open>DataUploader.generate_payload\<close> of Blue_4_: the only precondition checked is that
  \<open>pool_data.get_new()\<close> (with its default \<open>n = 4\<close>) is not \<open>None\<close>.
\<close>

definition generate_payload_v4 :: "rat \<Rightarrow> string \<Rightarrow> globals \<Rightarrow> payload option \<times> globals" where
  "generate_payload_v4 now clock_str g =
     (case get_new 4 (pool_data g) of
        (None, p1) \<Rightarrow> (None, g\<lparr>pool_data := p1\<rparr>)
      | (Some probe, p1) \<Rightarrow>
          (case get_current_time_str 2 now clock_str (g\<lparr>pool_data := p1\<rparr>) of
             (time_str, g') \<Rightarrow>
               (case get_new 4 (pool_data g') of
                  (batch, p2) \<Rightarrow>
                    (Some [(''device_id'', JString device_id),
                           (''position_x'', JString (format_6f (nmea_x g'))),
                           (''position_y'', JString (format_6f (nmea_y g'))),
                           (''time_stamp'', JString time_str),
                           (''user_data'',
                              (case batch of
                                 None \<Rightarrow> JNull
                               | Some slots \<Rightarrow> JArray (map json_of_slot slots)))],
                     g'\<lparr>pool_data := p2\<rparr>))))"

text \<open>
  \<open>DataUploader.generate_payload\<close> of Blue_2: no precondition, and the coordinates go
  through \<open>str\<close>.
\<close>

definition generate_payload_v2 :: "string \<Rightarrow> globals \<Rightarrow> payload option" where
  "generate_payload_v2 clock_str g =
     Some [(''device_id'', JString device_id),
           (''position_x'', JString (py_str_float (nmea_x g))),
           (''position_y'', JString (py_str_float (nmea_y g))),
           (''time_stamp'', JString clock_str),
           (''user_data'', JArray (map JString (user_data g)))]"

section \<open>Upload and the main loop of Blue_3\<close>

text \<open>
  The write event of \<open>BLEService._irq_callback\<close> in Blue_3 (\<open>list_len = 400\<close>). The
  argument is the ASCII-decoded payload, or \<open>None\<close> when decoding raised
  \<open>UnicodeDecodeError\<close> (caught, nothing changes). Any other exception, here the
  \<open>IndexError\<close> of the slot assignment, resets the buffer.
\<close>

definition list_len :: nat where
  "list_len = 400"

definition irq_write_v3 :: "string option \<Rightarrow> globals \<Rightarrow> globals" where
  "irq_write_v3 decoded g =
     (case decoded of
        None \<Rightarrow> g
      | Some data_str \<Rightarrow>
          if data_len g \<ge> list_len then
            (if \<not> data_len g mod list_len < length (list_data g)
             then g\<lparr>data_len := 0, up_len := 0, list_data := []\<rparr>
             else
               let g1 = g\<lparr>list_data := (list_data g)[data_len g mod list_len := data_str],
                          data_len := data_len g + 1, up_len := up_len g + 1\<rparr>
               in if up_len g1 \<ge> 200 then
                    g1\<lparr>user_data :=
                         take list_len (drop (data_len g1 mod list_len) (list_data g1)
                                        @ take (data_len g1 mod list_len) (list_data g1)),
                       ble_data_received := True, up_len := 0\<rparr>
                  else g1)
          else g\<lparr>list_data := list_data g @ [data_str], data_len := data_len g + 1\<rparr>)"

text \<open>
  \<open>DataUploader.upload_data\<close> of Blue_3. \<open>http_ok\<close> is what \<open>http_post\<close> returns
  (it catches its own exceptions). The flags are cleared on success only.
\<close>

definition upload_data_v3 :: "rat \<Rightarrow> string \<Rightarrow> bool \<Rightarrow> globals \<Rightarrow> bool \<times> globals" where
  "upload_data_v3 now clock_str http_ok g =
     (if \<not> gps_data_valid g \<or> \<not> ble_data_received g then (False, g)
      else
        (case generate_payload_v3 now clock_str g of
           (None, g') \<Rightarrow> (False, g')
         | (Some payload, g') \<Rightarrow>
             if payload = [] then (False, g')
             else if http_ok
             then (True, g'\<lparr>gps_data_valid := False, ble_data_received := False\<rparr>)
             else (False, g')))"

text \<open>The local variables of \<open>main\<close> that schedule the uploads, and its constants.\<close>

record sched =
  last_upload_time :: rat
  current_upload_interval :: rat
  consecutive_failures :: nat

record sched_cfg =
  min_upload_interval :: rat
  max_upload_interval :: rat
  max_consecutive_failures :: nat

definition cfg_v3 :: sched_cfg where
  "cfg_v3 = \<lparr>min_upload_interval = 1 / 2, max_upload_interval = 5,
             max_consecutive_failures = 3\<rparr>"

definition cfg_v4 :: sched_cfg where
  "cfg_v4 = \<lparr>min_upload_interval = 1 / 2, max_upload_interval = 3,
             max_consecutive_failures = 3\<rparr>"

definition sched_init :: "sched_cfg \<Rightarrow> sched" where
  "sched_init cfg =
     \<lparr>last_upload_time = 0, current_upload_interval = min_upload_interval cfg,
      consecutive_failures = 0\<rparr>"

text \<open>
  The two branches of \<open>if DataUploader.upload_data(): ... else: ...\<close> in \<open>main\<close>
  (the same text in Blue_3 and Blue_4_); \<open>ok\<close> is what \<open>upload_data\<close> returned.
\<close>

definition sched_update :: "sched_cfg \<Rightarrow> rat \<Rightarrow> bool \<Rightarrow> sched \<Rightarrow> sched" where
  "sched_update cfg current_time ok sc =
     (if ok then
        sc\<lparr>current_upload_interval := min_upload_interval cfg,
           consecutive_failures := 0,
           last_upload_time := current_time\<rparr>
      else
        let sc1 = sc\<lparr>consecutive_failures := consecutive_failures sc + 1\<rparr> in
        if consecutive_failures sc1 \<ge> max_consecutive_failures cfg then
          sc1\<lparr>current_upload_interval :=
                 min (current_upload_interval sc1 * 2) (max_upload_interval cfg),
              consecutive_failures := 0\<rparr>
        else sc1)"

text \<open>What one pass of the main loop reads from its environment.\<close>

record tick =
  gps_now :: rat
  uart_text :: "string option"
  tick_time :: rat
  isconnected :: bool
  payload_now :: rat
  clock_str :: string
  http_ok :: bool

text \<open>One pass of the \<open>while True\<close> loop of \<open>main\<close> in Blue_3.\<close>

definition main_iteration_v3 :: "sched_cfg \<Rightarrow> tick \<Rightarrow> sched \<times> globals \<Rightarrow> sched \<times> globals" where
  "main_iteration_v3 cfg tk st =
     (case st of
        (sc, g) \<Rightarrow>
          let g1 = read_gps_data 1 (gps_now tk) (uart_text tk) g;
              current_time = tick_time tk
          in if current_time - last_upload_time sc \<ge> current_upload_interval sc then
               (if isconnected tk then
                  (case upload_data_v3 (payload_now tk) (clock_str tk) (http_ok tk) g1 of
                     (ok, g2) \<Rightarrow> (sched_update cfg current_time ok sc, g2))
                else (sc, g1))
             else (sc, g1))"

text \<open>
  The firmware's history: passes of the main loop interleaved with write events of the
  wireless link.
\<close>

datatype event = Tick tick | BleWrite "string option"

fun run_v3 :: "sched_cfg \<Rightarrow> event list \<Rightarrow> sched \<times> globals \<Rightarrow> sched \<times> globals" where
  "run_v3 cfg [] st = st"
| "run_v3 cfg (Tick tk # es) st = run_v3 cfg es (main_iteration_v3 cfg tk st)"
| "run_v3 cfg (BleWrite d # es) st = run_v3 cfg es (fst st, irq_write_v3 d (snd st))"

text \<open>A run of upload attempts that all fail, at the given times.\<close>

fun failed_attempts :: "sched_cfg \<Rightarrow> rat list \<Rightarrow> sched \<Rightarrow> sched" where
  "failed_attempts cfg [] sc = sc"
| "failed_attempts cfg (t # ts) sc = failed_attempts cfg ts (sched_update cfg t False sc)"

text \<open>
  The property asked of a formatted coordinate: an optional minus sign, at least one
  digit, a point, and exactly six digits.
\<close>

definition six_fraction_digits :: "string \<Rightarrow> bool" where
  "six_fraction_digits s =
     (let u = (case s of [] \<Rightarrow> [] | c # cs \<Rightarrow> if c = CHR ''-'' then cs else s);
          ip = takeWhile is_digit u
      in ip \<noteq> [] \<and>
         (case dropWhile is_digit u of
            [] \<Rightarrow> False
          | c # fp \<Rightarrow> c = CHR ''.'' \<and> length fp = 6 \<and> list_all is_digit fp))"

text \<open>
  An example state in which a fix and a batch are both ready (the fix is the one the
  example sentence commits), and a pass of the main loop at time 10 whose transport
  call fails.
\<close>

definition example_ready :: globals where
  "example_ready =
     globals_init\<lparr>nmea_x := - (121583416 / 10000), nmea_y := 37232475 / 10000,
                  gps_data_valid := True, ble_data_received := True,
                  user_data := [''a'', ''b'']\<rparr>"

definition example_failing_tick :: tick where
  "example_failing_tick =
     \<lparr>gps_now = 10, uart_text = None, tick_time = 10, isconnected = True,
      payload_now = 10, clock_str = ''2025-01-01 00:00:10'', http_ok = False\<rparr>"

text \<open>
  An example state of Blue_4_: four samples pushed, no position fix yet.
\<close>

definition example_pool_ready :: globals where
  "example_pool_ready =
     globals_init\<lparr>pool_data := pushes [[1], [2], [3], [4]] (data_pool_init 10)\<rparr>"

text \<open>
  The slot \<open>j\<close> of a pool of capacity \<open>n\<close> after the pushes \<open>xs\<close>, written in closed
  form: slots below the cursor hold the current lap, the others the lap before.
\<close>

definition slot_of :: "'a list \<Rightarrow> nat \<Rightarrow> nat \<Rightarrow> 'a option" where
  "slot_of xs n j =
     (if j < length xs mod n then Some (xs ! (length xs - length xs mod n + j))
      else if n \<le> length xs then Some (xs ! (length xs - length xs mod n - n + j))
      else None)"

section \<open>The parser: the example sentence, fallback, and the six-field sentence\<close>

lemma split_example:
  "split_on (CHR '','') ''$xxGLL,3723.2475,N,12158.3416,W,161229.487,A,A*41''
   = [''$xxGLL'', ''3723.2475'', ''N'', ''12158.3416'', ''W'', ''161229.487'', ''A'', ''A*41'']"
  by simp

lemmas py_float_eval =
  py_float_def strip_def is_space_def is_digit_def digits_val_def digit_val_def

lemma float_example_lat: "py_float ''3723.2475'' = Some (37232475 / 10000)"
  by (simp add: py_float_eval)

lemma float_example_lon: "py_float ''12158.3416'' = Some (121583416 / 10000)"
  by (simp add: py_float_eval)

lemma parse_gll_example:
  "parse_gll now ''$xxGLL,3723.2475,N,12158.3416,W,161229.487,A,A*41'' g =
   (True, g\<lparr>self_nmea_x := - (121583416 / 10000), self_nmea_y := 37232475 / 10000,
             nmea_x := - (121583416 / 10000), nmea_y := 37232475 / 10000,
             last_x := - (121583416 / 10000), last_y := 37232475 / 10000,
             gps_data_valid := True, last_gps_time := now\<rparr>)"
  unfolding parse_gll_def split_example
  by (simp add: float_example_lat float_example_lon Let_def)

text \<open>
  C1, as the code has it. The parser stores the coordinate fields as they are written
  in the sentence (NMEA \<open>ddmm.mmmm\<close>), without converting to degrees: from any state,
  the example sentence commits latitude 3723.2475 and longitude -12158.3416 (the
  hemisphere W negates the longitude) and sets the position-valid flag.
\<close>

theorem gll_example_commits_raw_fields:
  "fst (parse_gll now ''$xxGLL,3723.2475,N,12158.3416,W,161229.487,A,A*41'' g) = True \<and>
   nmea_y (snd (parse_gll now ''$xxGLL,3723.2475,N,12158.3416,W,161229.487,A,A*41'' g))
     = 37232475 / 10000 \<and>
   nmea_x (snd (parse_gll now ''$xxGLL,3723.2475,N,12158.3416,W,161229.487,A,A*41'' g))
     = - (121583416 / 10000) \<and>
   gps_data_valid (snd (parse_gll now ''$xxGLL,3723.2475,N,12158.3416,W,161229.487,A,A*41'' g))"
  by (simp add: parse_gll_example)

text \<open>
  C1 as stated fails: after the example sentence the latitude is not 37.387458 (and
  the longitude is not -121.972693).
\<close>

theorem gll_example_not_degrees:
  "\<not> (nmea_y (snd (parse_gll 0 ''$xxGLL,3723.2475,N,12158.3416,W,161229.487,A,A*41''
                     globals_init)) = 37387458 / 1000000 \<and>
      nmea_x (snd (parse_gll 0 ''$xxGLL,3723.2475,N,12158.3416,W,161229.487,A,A*41''
                     globals_init)) = - (121972693 / 1000000) \<and>
      gps_data_valid (snd (parse_gll 0 ''$xxGLL,3723.2475,N,12158.3416,W,161229.487,A,A*41''
                     globals_init)))"
  by (simp add: parse_gll_example)

lemma parse_gll_void:
  assumes "7 \<le> length (split_on (CHR '','') s)" and "split_on (CHR '','') s ! 6 \<noteq> ''A''"
  shows "parse_gll now s g =
     (False, if last_x g \<noteq> 0
         then g\<lparr>nmea_x := last_x g, nmea_y := last_y g, gps_data_valid := True\<rparr>
         else g)"
  using assms by (simp add: parse_gll_def Let_def)

lemma parse_gll_commit:
  assumes "parse_gll now s g = (True, g1)"
  shows "gps_data_valid g1 \<and> last_x g1 = nmea_x g1 \<and> last_y g1 = nmea_y g1
     \<and> py_float (split_on (CHR '','') s ! 3) =
         Some (if py_in ''W'' (split_on (CHR '','') s ! 4) then - nmea_x g1 else nmea_x g1)
     \<and> py_float (split_on (CHR '','') s ! 1) =
         Some (if py_in ''S'' (split_on (CHR '','') s ! 2) then - nmea_y g1 else nmea_y g1)
     \<and> split_on (CHR '','') s ! 6 = ''A''"
  using assms by (auto simp: parse_gll_def Let_def split: if_splits option.splits)

lemma parse_gll_void_held:
  assumes "7 \<le> length (split_on (CHR '','') s)" and "split_on (CHR '','') s ! 6 \<noteq> ''A''"
    and "gps_data_valid g" and "last_x g = nmea_x g" and "last_y g = nmea_y g"
  shows "snd (parse_gll now s g) = g"
  using assms by (simp add: parse_gll_void)

lemma feed_voids_held:
  assumes "\<forall>s \<in> set voids. 7 \<le> length (split_on (CHR '','') s)
                        \<and> split_on (CHR '','') s ! 6 \<noteq> ''A''"
    and "gps_data_valid g" and "last_x g = nmea_x g" and "last_y g = nmea_y g"
  shows "feed now voids g = g"
  using assms by (induction voids) (simp_all add: parse_gll_void_held)

lemma parse_gll_active:
  assumes "7 \<le> length (split_on (CHR '','') s)" and "split_on (CHR '','') s ! 6 = ''A''"
    and "py_float (split_on (CHR '','') s ! 1) = Some lat0"
    and "py_float (split_on (CHR '','') s ! 3) = Some lon0"
  shows "parse_gll now s g =
     (True,
      g\<lparr>self_nmea_x := (if py_in ''W'' (split_on (CHR '','') s ! 4) then - lon0 else lon0),
        self_nmea_y := (if py_in ''S'' (split_on (CHR '','') s ! 2) then - lat0 else lat0),
        nmea_x := (if py_in ''W'' (split_on (CHR '','') s ! 4) then - lon0 else lon0),
        nmea_y := (if py_in ''S'' (split_on (CHR '','') s ! 2) then - lat0 else lat0),
        last_x := (if py_in ''W'' (split_on (CHR '','') s ! 4) then - lon0 else lon0),
        last_y := (if py_in ''S'' (split_on (CHR '','') s ! 2) then - lat0 else lat0),
        gps_data_valid := True, last_gps_time := now\<rparr>)"
  using assms by (simp add: parse_gll_def Let_def)

lemma feed_append: "feed now (xs @ ys) g = feed now ys (feed now xs g)"
  by (induction xs arbitrary: g) simp_all

lemma example_fields:
  "7 \<le> length (split_on (CHR '','') ''$xxGLL,3723.2475,N,12158.3416,W,161229.487,A,A*41'')"
  "split_on (CHR '','') ''$xxGLL,3723.2475,N,12158.3416,W,161229.487,A,A*41'' ! 6 = ''A''"
  "py_float (split_on (CHR '','') ''$xxGLL,3723.2475,N,12158.3416,W,161229.487,A,A*41'' ! 1)
     = Some (37232475 / 10000)"
  "py_float (split_on (CHR '','') ''$xxGLL,3723.2475,N,12158.3416,W,161229.487,A,A*41'' ! 3)
     = Some (121583416 / 10000)"
  "py_in ''W'' (split_on (CHR '','') ''$xxGLL,3723.2475,N,12158.3416,W,161229.487,A,A*41'' ! 4)"
  "\<not> py_in ''S'' (split_on (CHR '','') ''$xxGLL,3723.2475,N,12158.3416,W,161229.487,A,A*41'' ! 2)"
  unfolding split_example by (simp_all add: float_example_lat float_example_lon)

text \<open>
  C2. Let \<open>v\<close> be a valid sentence: at least seven fields, status \<open>A\<close>, and both
  coordinate fields convert (to \<open>lat0\<close> and \<open>lon0\<close>). From any state, the parser
  commits \<open>v\<close>, and after \<open>v\<close> followed by any number of void sentences (at least seven
  fields, status not \<open>A\<close>) the position-valid flag is true and the exposed
  coordinates are those of \<open>v\<close>: its coordinate fields, negated for the hemispheres
  S and W. The list of void sentences is arbitrary, so this holds after each of them.
\<close>

theorem valid_then_voids_keeps_fix:
  assumes "7 \<le> length (split_on (CHR '','') v)" and "split_on (CHR '','') v ! 6 = ''A''"
    and "py_float (split_on (CHR '','') v ! 1) = Some lat0"
    and "py_float (split_on (CHR '','') v ! 3) = Some lon0"
    and "\<forall>s \<in> set voids. 7 \<le> length (split_on (CHR '','') s)
                        \<and> split_on (CHR '','') s ! 6 \<noteq> ''A''"
  shows "fst (parse_gll t v g) = True
     \<and> gps_data_valid (feed t' (v # voids) g)
     \<and> nmea_x (feed t' (v # voids) g)
         = (if py_in ''W'' (split_on (CHR '','') v ! 4) then - lon0 else lon0)
     \<and> nmea_y (feed t' (v # voids) g)
         = (if py_in ''S'' (split_on (CHR '','') v ! 2) then - lat0 else lat0)"
proof -
  let ?g1 = "snd (parse_gll t' v g)"
  note a = parse_gll_active [OF assms(1-4)]
  have held: "gps_data_valid ?g1" "last_x ?g1 = nmea_x ?g1" "last_y ?g1 = nmea_y ?g1"
    by (simp_all add: a)
  have "feed t' voids ?g1 = ?g1"
    by (rule feed_voids_held [OF assms(5) held])
  then have "feed t' (v # voids) g = ?g1" by simp
  then show ?thesis by (simp add: a)
qed

theorem valid_then_voids_keeps_fix_witness:
  "gps_data_valid
     (feed 1 [''$xxGLL,3723.2475,N,12158.3416,W,161229.487,A,A*41'',
              ''$GPGLL,,,,,161230.000,V,N*64'',
              ''$GPGLL,3723.2475,N,12158.3416,W,161231.000,V,N*40''] globals_init)
   \<and> nmea_x
     (feed 1 [''$xxGLL,3723.2475,N,12158.3416,W,161229.487,A,A*41'',
              ''$GPGLL,,,,,161230.000,V,N*64'',
              ''$GPGLL,3723.2475,N,12158.3416,W,161231.000,V,N*40''] globals_init)
     = - (121583416 / 10000)
   \<and> nmea_y
     (feed 1 [''$xxGLL,3723.2475,N,12158.3416,W,161229.487,A,A*41'',
              ''$GPGLL,,,,,161230.000,V,N*64'',
              ''$GPGLL,3723.2475,N,12158.3416,W,161231.000,V,N*40''] globals_init)
     = 37232475 / 10000"
proof -
  have h: "\<forall>s \<in> set [''$GPGLL,,,,,161230.000,V,N*64'',
                       ''$GPGLL,3723.2475,N,12158.3416,W,161231.000,V,N*40''].
              7 \<le> length (split_on (CHR '','') s) \<and> split_on (CHR '','') s ! 6 \<noteq> ''A''"
    by simp
  note t = valid_then_voids_keeps_fix [OF example_fields(1-4) h, of 0 globals_init 1]
  note b = t [THEN conjunct2, THEN conjunct1]
  note c = t [THEN conjunct2, THEN conjunct2, THEN conjunct1]
  note d = t [THEN conjunct2, THEN conjunct2, THEN conjunct2]
  have c': "nmea_x
     (feed 1 [''$xxGLL,3723.2475,N,12158.3416,W,161229.487,A,A*41'',
              ''$GPGLL,,,,,161230.000,V,N*64'',
              ''$GPGLL,3723.2475,N,12158.3416,W,161231.000,V,N*40''] globals_init)
     = - (121583416 / 10000)"
    using c example_fields(5) by (simp only: if_True)
  have d': "nmea_y
     (feed 1 [''$xxGLL,3723.2475,N,12158.3416,W,161229.487,A,A*41'',
              ''$GPGLL,,,,,161230.000,V,N*64'',
              ''$GPGLL,3723.2475,N,12158.3416,W,161231.000,V,N*40''] globals_init)
     = 37232475 / 10000"
    using d example_fields(6) by (simp only: if_False)
  show ?thesis by (intro conjI b c' d')
qed

text \<open>
  A new valid sentence \<open>w\<close>, after any sentences, replaces the fix by its own.
\<close>

lemma new_valid_replaces_fix:
  assumes "7 \<le> length (split_on (CHR '','') w)" and "split_on (CHR '','') w ! 6 = ''A''"
    and "py_float (split_on (CHR '','') w ! 1) = Some lat1"
    and "py_float (split_on (CHR '','') w ! 3) = Some lon1"
  shows "gps_data_valid (feed t' (ss @ [w]) g)
     \<and> nmea_x (feed t' (ss @ [w]) g)
         = (if py_in ''W'' (split_on (CHR '','') w ! 4) then - lon1 else lon1)
     \<and> nmea_y (feed t' (ss @ [w]) g)
         = (if py_in ''S'' (split_on (CHR '','') w ! 2) then - lat1 else lat1)"
  by (simp add: feed_append parse_gll_active [OF assms])

text \<open>The same holds for the parser of Blue_2, where void sentences cannot raise.\<close>

lemma parse_gll_v2_commit:
  assumes "parse_gll_v2 s g = (Inr True, g1)"
  shows "gps_data_valid g1 \<and> last_x g1 = nmea_x g1 \<and> last_y g1 = nmea_y g1"
  using assms by (auto simp: parse_gll_v2_def Let_def split: if_splits option.splits)

lemma parse_gll_v2_void_held:
  assumes "7 \<le> length (split_on (CHR '','') s)" and "split_on (CHR '','') s ! 6 \<noteq> ''A''"
    and "gps_data_valid g" and "last_x g = nmea_x g" and "last_y g = nmea_y g"
  shows "snd (parse_gll_v2 s g) = g"
  using assms by (simp add: parse_gll_v2_def Let_def)

lemma feed_v2_voids_held:
  assumes "\<forall>s \<in> set voids. 7 \<le> length (split_on (CHR '','') s)
                        \<and> split_on (CHR '','') s ! 6 \<noteq> ''A''"
    and "gps_data_valid g" and "last_x g = nmea_x g" and "last_y g = nmea_y g"
  shows "feed_v2 voids g = g"
  using assms by (induction voids) (simp_all add: parse_gll_v2_void_held)

lemma parse_gll_v2_active:
  assumes "7 \<le> length (split_on (CHR '','') s)" and "split_on (CHR '','') s ! 6 = ''A''"
    and "py_float (split_on (CHR '','') s ! 1) = Some lat0"
    and "py_float (split_on (CHR '','') s ! 3) = Some lon0"
  shows "parse_gll_v2 s g =
     (Inr True,
      g\<lparr>self_nmea_y := (if py_in ''S'' (split_on (CHR '','') s ! 2) then - lat0 else lat0),
        self_nmea_x := (if py_in ''W'' (split_on (CHR '','') s ! 4) then - lon0 else lon0),
        nmea_x := (if py_in ''W'' (split_on (CHR '','') s ! 4) then - lon0 else lon0),
        nmea_y := (if py_in ''S'' (split_on (CHR '','') s ! 2) then - lat0 else lat0),
        last_x := (if py_in ''W'' (split_on (CHR '','') s ! 4) then - lon0 else lon0),
        last_y := (if py_in ''S'' (split_on (CHR '','') s ! 2) then - lat0 else lat0),
        gps_data_valid := True\<rparr>)"
  using assms by (simp add: parse_gll_v2_def Let_def)

lemma valid_then_voids_keeps_fix_v2:
  assumes "7 \<le> length (split_on (CHR '','') v)" and "split_on (CHR '','') v ! 6 = ''A''"
    and "py_float (split_on (CHR '','') v ! 1) = Some lat0"
    and "py_float (split_on (CHR '','') v ! 3) = Some lon0"
    and "\<forall>s \<in> set voids. 7 \<le> length (split_on (CHR '','') s)
                        \<and> split_on (CHR '','') s ! 6 \<noteq> ''A''"
  shows "fst (parse_gll_v2 v g) = Inr True
     \<and> gps_data_valid (feed_v2 (v # voids) g)
     \<and> nmea_x (feed_v2 (v # voids) g)
         = (if py_in ''W'' (split_on (CHR '','') v ! 4) then - lon0 else lon0)
     \<and> nmea_y (feed_v2 (v # voids) g)
         = (if py_in ''S'' (split_on (CHR '','') v ! 2) then - lat0 else lat0)"
proof -
  let ?g1 = "snd (parse_gll_v2 v g)"
  note a = parse_gll_v2_active [OF assms(1-4)]
  have held: "gps_data_valid ?g1" "last_x ?g1 = nmea_x ?g1" "last_y ?g1 = nmea_y ?g1"
    by (simp_all add: a)
  have "feed_v2 voids ?g1 = ?g1"
    by (rule feed_v2_voids_held [OF assms(5) held])
  then have "feed_v2 (v # voids) g = ?g1" by simp
  then show ?thesis by (simp add: a)
qed

lemma parse_gll_v2_six:
  assumes "length (split_on (CHR '','') s) = 6"
  shows "parse_gll_v2 s g = (Inl IndexError, g)"
  using assms by (simp add: parse_gll_v2_def Let_def)

lemma gps_loop_v2_six:
  assumes "length (split_on (CHR '','') s) = 6" and "py_in ''GLL'' s"
  shows "gps_loop_v2 (s # rest) g = (Some IndexError, g)"
proof -
  from assms(2) have "s \<noteq> []" by auto
  with assms show ?thesis by (simp add: parse_gll_v2_six)
qed

lemma gps_loop_v2_prefix:
  assumes "length (split_on (CHR '','') s) = 6" and "py_in ''GLL'' s"
  shows "gps_loop_v2 (pre @ s # rest) g = gps_loop_v2 (pre @ [s]) g"
proof (induction pre arbitrary: g)
  case Nil
  show ?case using gps_loop_v2_six [OF assms] by simp
next
  case (Cons p pre)
  show ?case by (simp add: Cons.IH split: prod.splits sum.splits bool.splits)
qed

lemma split_crlf_example:
  "split_crlf (''$GPGLL,3723.2475,N,12158.3416,W,161229.487'' @ [CHR 0x0D, CHR 0x0A]
           @ ''$xxGLL,3723.2475,N,12158.3416,W,161229.487,A,A*41'')
   = [''$GPGLL,3723.2475,N,12158.3416,W,161229.487'',
      ''$xxGLL,3723.2475,N,12158.3416,W,161229.487,A,A*41'']"
  by code_simp

lemma gll_in_six: "py_in ''GLL'' ''$GPGLL,3723.2475,N,12158.3416,W,161229.487''"
  by simp

lemma six_fields_example:
  "length (split_on (CHR '','') ''$GPGLL,3723.2475,N,12158.3416,W,161229.487'') = 6"
  by simp

text \<open>
  C10. In Blue_2, a sentence whose comma-split has exactly six fields makes
  \<open>_parse_gll\<close> raise \<open>IndexError\<close> with the state untouched. When the sentence
  contains \<open>GLL\<close> (so that \<open>read_gps_data\<close> hands it to the parser), the loop over the
  chunk ends there with that exception: whatever sentences follow it are not parsed,
  after any sentences \<open>pre\<close> before it. \<open>read_gps_data_v2\<close> is a total function that
  returns the state at the exception, so the exception does not escape.
\<close>

theorem six_fields_raise_and_skip_rest:
  assumes "length (split_on (CHR '','') s) = 6"
  shows "parse_gll_v2 s g = (Inl IndexError, g)
     \<and> (py_in ''GLL'' s \<longrightarrow>
          gps_loop_v2 (s # rest) g = (Some IndexError, g)
        \<and> gps_loop_v2 (pre @ s # rest) g = gps_loop_v2 (pre @ [s]) g)"
proof (intro conjI impI)
  show "parse_gll_v2 s g = (Inl IndexError, g)"
    by (rule parse_gll_v2_six [OF assms])
next
  assume "py_in ''GLL'' s"
  then show "gps_loop_v2 (s # rest) g = (Some IndexError, g)"
    by (rule gps_loop_v2_six [OF assms])
next
  assume "py_in ''GLL'' s"
  then show "gps_loop_v2 (pre @ s # rest) g = gps_loop_v2 (pre @ [s]) g"
    by (rule gps_loop_v2_prefix [OF assms])
qed

theorem six_fields_raise_and_skip_rest_witness:
  "length (split_on (CHR '','') ''$GPGLL,3723.2475,N,12158.3416,W,161229.487'') = 6
   \<and> py_in ''GLL'' ''$GPGLL,3723.2475,N,12158.3416,W,161229.487''
   \<and> parse_gll_v2 ''$GPGLL,3723.2475,N,12158.3416,W,161229.487'' globals_init
       = (Inl IndexError, globals_init)
   \<and> gps_loop_v2 [''$GPGLL,3723.2475,N,12158.3416,W,161229.487'',
                   ''$xxGLL,3723.2475,N,12158.3416,W,161229.487,A,A*41''] globals_init
       = (Some IndexError, globals_init)
   \<and> read_gps_data_v2
        (Some (''$GPGLL,3723.2475,N,12158.3416,W,161229.487'' @ [CHR 0x0D, CHR 0x0A]
               @ ''$xxGLL,3723.2475,N,12158.3416,W,161229.487,A,A*41'')) globals_init
       = globals_init"
proof -
  note t = six_fields_raise_and_skip_rest [OF six_fields_example, of globals_init
         "[''$xxGLL,3723.2475,N,12158.3416,W,161229.487,A,A*41'']" "[]"]
  note a = t [THEN conjunct1]
  note b = t [THEN conjunct2, THEN mp, OF gll_in_six, THEN conjunct1]
  have c: "read_gps_data_v2
        (Some (''$GPGLL,3723.2475,N,12158.3416,W,161229.487'' @ [CHR 0x0D, CHR 0x0A]
               @ ''$xxGLL,3723.2475,N,12158.3416,W,161229.487,A,A*41'')) globals_init
       = globals_init"
    unfolding read_gps_data_v2_def option.case split_crlf_example b snd_conv ..
  show ?thesis
    by (intro conjI six_fields_example gll_in_six a b c)
qed


section \<open>The ring buffer: what a read returns\<close>

lemma pushes_snoc: "pushes (xs @ [x]) p = snd (append_pool x (pushes xs p))"
  by (induction xs arbitrary: p) simp_all

lemma pushes_shape:
  assumes "0 < n"
  shows "pool_size (pushes xs (data_pool_init n)) = n
       \<and> length (buffer (pushes xs (data_pool_init n))) = n
       \<and> index (pushes xs (data_pool_init n)) = length xs mod n"
proof (induction xs rule: rev_induct)
  case Nil
  show ?case using assms by (simp add: data_pool_init_def)
next
  case (snoc x xs)
  then show ?case using assms
    by (simp add: pushes_snoc append_pool_def Let_def mod_Suc_eq)
qed

lemma pushes_buffer_step:
  assumes "0 < n"
  shows "buffer (pushes (xs @ [x]) (data_pool_init n))
       = (buffer (pushes xs (data_pool_init n)))[length xs mod n := Some x]"
  using pushes_shape [OF assms, of xs] assms
  by (simp add: pushes_snoc append_pool_def Let_def)

lemma sub_mod_ge:
  fixes L n :: nat
  assumes "0 < n" and "n \<le> L"
  shows "n \<le> L - L mod n"
proof -
  have "0 < L div n" using assms by (simp add: div_greater_zero_iff)
  then have "1 \<le> L div n" by simp
  then have "n * 1 \<le> n * (L div n)" by (rule mult_le_mono2)
  moreover have "L - L mod n = n * (L div n)" by (simp add: minus_mod_eq_mult_div)
  ultimately show ?thesis by simp
qed

lemma pushes_slots:
  assumes "0 < n" and "j < n"
  shows "buffer (pushes xs (data_pool_init n)) ! j = slot_of xs n j"
  using assms(2)
proof (induction xs arbitrary: j rule: rev_induct)
  case Nil
  then show ?case using assms by (simp add: data_pool_init_def slot_of_def)
next
  case (snoc x xs)
  let ?p = "pushes xs (data_pool_init n)"
  let ?L = "length xs"
  note sh = pushes_shape [OF assms(1), of xs]
  have r: "?L mod n < n" using assms(1) by simp
  have le: "?L mod n \<le> ?L" by simp
  note buf = pushes_buffer_step [OF assms(1), of xs x]
  show ?case
  proof (cases "j = ?L mod n")
    case True
    show ?thesis
    proof (cases "Suc (?L mod n) = n")
      case wrap: True
      then have "Suc ?L mod n = 0" by (simp add: mod_Suc)
      moreover have "n \<le> Suc ?L" using wrap le by linarith
      moreover have "Suc ?L - n + j = ?L" using wrap True le by linarith
      ultimately show ?thesis using True sh r buf by (simp add: slot_of_def)
    next
      case nowrap: False
      then have m: "Suc ?L mod n = Suc (?L mod n)" by (simp add: mod_Suc)
      have "Suc ?L - Suc (?L mod n) + j = ?L" using True le by linarith
      then show ?thesis using True sh r buf m by (simp add: slot_of_def)
    qed
  next
    case False
    have old: "buffer (pushes (xs @ [x]) (data_pool_init n)) ! j = slot_of xs n j"
      using False snoc buf by simp
    show ?thesis
    proof (cases "Suc (?L mod n) = n")
      case wrap: True
      then have m: "Suc ?L mod n = 0" by (simp add: mod_Suc)
      have jlt: "j < ?L mod n" using False snoc.prems wrap by linarith
      have "n \<le> Suc ?L" using wrap le by linarith
      moreover have "Suc ?L - n + j = ?L - ?L mod n + j" using wrap le by linarith
      moreover have "?L - ?L mod n + j < ?L" using jlt le by linarith
      ultimately show ?thesis using old jlt m by (simp add: slot_of_def nth_append)
    next
      case nowrap: False
      then have m: "Suc ?L mod n = Suc (?L mod n)" by (simp add: mod_Suc)
      show ?thesis
      proof (cases "j < ?L mod n")
        case True
        have "Suc ?L - Suc (?L mod n) + j = ?L - ?L mod n + j" by simp
        moreover have "?L - ?L mod n + j < ?L" using True le by linarith
        ultimately show ?thesis using old True m by (simp add: slot_of_def nth_append)
      next
        case jge: False
        then have jgt: "?L mod n < j" using False by linarith
        show ?thesis
        proof (cases "n \<le> ?L")
          case True
          have "n \<le> ?L - ?L mod n" by (rule sub_mod_ge [OF assms(1) True])
          then have "Suc ?L - Suc (?L mod n) - n + j = ?L - ?L mod n - n + j"
            and "?L - ?L mod n - n + j < ?L" using snoc.prems le by linarith+
          then show ?thesis using old jge jgt m True by (simp add: slot_of_def nth_append)
        next
          case small: False
          then have "?L mod n = ?L" by simp
          then have "\<not> n \<le> Suc ?L" using jgt snoc.prems by linarith
          then show ?thesis using old jge jgt m small by (simp add: slot_of_def)
        qed
      qed
    qed
  qed
qed

lemma get_new_recent:
  assumes "0 < n" and "m \<le> length xs mod n"
  shows "fst (get_new m (pushes xs (data_pool_init n)))
       = Some (map Some (drop (length xs - m) xs))"
proof -
  let ?p = "pushes xs (data_pool_init n)"
  let ?L = "length xs"
  note sh = pushes_shape [OF assms(1), of xs]
  have r: "?L mod n < n" using assms(1) by simp
  have le: "?L mod n \<le> ?L" by simp
  have mL: "m \<le> ?L" using le assms(2) by linarith
  have "py_slice (buffer ?p) (?L mod n - m) (?L mod n) = map Some (drop (?L - m) xs)"
  proof (rule nth_equalityI)
    show "length (py_slice (buffer ?p) (?L mod n - m) (?L mod n))
        = length (map Some (drop (?L - m) xs))"
      using sh r mL assms(2) by (simp add: py_slice_def)
  next
    fix i assume "i < length (py_slice (buffer ?p) (?L mod n - m) (?L mod n))"
    then have i: "i < m" using sh r assms(2) by (simp add: py_slice_def)
    have j: "?L mod n - m + i < ?L mod n" using i assms(2) by linarith
    then have jn: "?L mod n - m + i < n" using r by linarith
    have "py_slice (buffer ?p) (?L mod n - m) (?L mod n) ! i = buffer ?p ! (?L mod n - m + i)"
      using i sh r assms(2) by (simp add: py_slice_def)
    also have "\<dots> = slot_of xs n (?L mod n - m + i)" by (rule pushes_slots [OF assms(1) jn])
    also have "\<dots> = Some (xs ! (?L - ?L mod n + (?L mod n - m + i)))"
      using j by (simp add: slot_of_def)
    also have "?L - ?L mod n + (?L mod n - m + i) = ?L - m + i" using le assms(2) by linarith
    finally show "py_slice (buffer ?p) (?L mod n - m) (?L mod n) ! i
        = map Some (drop (?L - m) xs) ! i"
      using i mL by simp
  qed
  then show ?thesis using sh assms(2) by (simp add: get_new_def)
qed

lemma buffer_full_at_wrap:
  assumes "0 < n" and "length xs mod n = 0" and "xs \<noteq> []"
  shows "buffer (pushes xs (data_pool_init n)) = map Some (drop (length xs - n) xs)"
proof -
  let ?p = "pushes xs (data_pool_init n)"
  let ?L = "length xs"
  note sh = pushes_shape [OF assms(1), of xs]
  have nL: "n \<le> ?L"
  proof -
    have "n dvd ?L" using assms(2) by auto
    moreover have "0 < ?L" using assms(3) by simp
    ultimately show ?thesis by (rule dvd_imp_le)
  qed
  show ?thesis
  proof (rule nth_equalityI)
    show "length (buffer ?p) = length (map Some (drop (?L - n) xs))" using sh nL by simp
  next
    fix j assume "j < length (buffer ?p)"
    then have j: "j < n" using sh by simp
    have "buffer ?p ! j = slot_of xs n j" by (rule pushes_slots [OF assms(1) j])
    also have "\<dots> = Some (xs ! (?L - n + j))" using assms(2) nL by (simp add: slot_of_def)
    finally show "buffer ?p ! j = map Some (drop (?L - n) xs) ! j" using j nL by simp
  qed
qed

text \<open>
  C3, evaluated on the pool of Blue_4_ (capacity 10, batch of 4). After exactly four
  pushes the read returns those four samples in order. After ten pushes (and after
  eleven) the cursor has wrapped below 4 and the read returns \<open>None\<close>, although the
  four most recent samples are in the buffer.
\<close>

theorem get_new_misses_batch_after_wrap:
  "fst (get_new 4 (pushes [[1], [2], [3], [4 :: rat]] (data_pool_init 10)))
     = Some [Some [1], Some [2], Some [3], Some [4]]
   \<and> fst (get_new 4 (pushes [[1], [2], [3], [4], [5], [6], [7], [8], [9], [10 :: rat]]
                      (data_pool_init 10))) = None
   \<and> fst (get_new 4 (pushes [[1], [2], [3], [4], [5], [6], [7], [8], [9], [10], [11 :: rat]]
                      (data_pool_init 10))) = None"
  by (intro conjI) code_simp+

text \<open>
  C6, as the code has it. \<open>get_new\<close> is a read that changes nothing: the pool after the
  call is the pool before it, and a second call without a push in between returns
  what the first returned (the same snapshot when there was one).
\<close>

theorem get_new_twice_returns_same:
  "snd (get_new n p) = p \<and> get_new n (snd (get_new n p)) = get_new n p"
  by (simp add: get_new_def)

text \<open>
  C6 as stated fails: after four pushes both calls return the snapshot.
\<close>

theorem get_new_second_call_not_empty:
  "fst (get_new 4 (pushes [[1], [2], [3], [4 :: rat]] (data_pool_init 10)))
     = Some [Some [1], Some [2], Some [3], Some [4]]
   \<and> fst (get_new 4 (snd (get_new 4 (pushes [[1], [2], [3], [4 :: rat]] (data_pool_init 10)))))
     = Some [Some [1], Some [2], Some [3], Some [4]]"
  by (intro conjI) code_simp+

text \<open>
  C9. \<open>get_new n\<close> returns \<open>None\<close> exactly when the write cursor is below \<open>n\<close>. After
  a number of pushes that is a multiple of the capacity the cursor is 0, so for
  \<open>n > 0\<close> the read returns \<open>None\<close>; if at least one sample was pushed, the buffer at
  that moment holds exactly the \<open>cap\<close> most recent samples, in order.
\<close>

theorem get_new_none_iff_cursor_below:
  "(fst (get_new n p) = None \<longleftrightarrow> index p < n)
   \<and> (0 < cap \<and> 0 < n \<and> length xs mod cap = 0 \<longrightarrow>
        fst (get_new n (pushes xs (data_pool_init cap))) = None)
   \<and> (0 < cap \<and> xs \<noteq> [] \<and> length xs mod cap = 0 \<longrightarrow>
        buffer (pushes xs (data_pool_init cap)) = map Some (drop (length xs - cap) xs))"
proof (intro conjI impI)
  show "fst (get_new n p) = None \<longleftrightarrow> index p < n"
    by (auto simp: get_new_def)
next
  assume a: "0 < cap \<and> 0 < n \<and> length xs mod cap = 0"
  then have "index (pushes xs (data_pool_init cap)) = 0"
    using pushes_shape [of cap xs] by simp
  with a show "fst (get_new n (pushes xs (data_pool_init cap))) = None"
    by (simp add: get_new_def)
next
  assume "0 < cap \<and> xs \<noteq> [] \<and> length xs mod cap = 0"
  then show "buffer (pushes xs (data_pool_init cap)) = map Some (drop (length xs - cap) xs)"
    by (simp add: buffer_full_at_wrap)
qed

theorem get_new_none_iff_cursor_below_witness:
  "fst (get_new 4 (pushes [[1], [2], [3], [4], [5], [6], [7], [8], [9], [10 :: rat]]
                    (data_pool_init 10))) = None
   \<and> buffer (pushes [[1], [2], [3], [4], [5], [6], [7], [8], [9], [10 :: rat]]
                (data_pool_init 10))
     = [Some [1], Some [2], Some [3], Some [4], Some [5], Some [6], Some [7], Some [8],
        Some [9], Some [10]]"
proof -
  let ?xs = "[[1], [2], [3], [4], [5], [6], [7], [8], [9], [10 :: rat]]"
  note t = get_new_none_iff_cursor_below [of 4 "data_pool_init 10" 10 ?xs]
  have h1: "(0::nat) < 10 \<and> (0::nat) < 4 \<and> length ?xs mod 10 = 0" by simp
  have h2: "(0::nat) < 10 \<and> ?xs \<noteq> [] \<and> length ?xs mod 10 = 0" by simp
  note a = t [THEN conjunct2, THEN conjunct1, THEN mp, OF h1]
  note b = t [THEN conjunct2, THEN conjunct2, THEN mp, OF h2]
  have c: "map Some (drop (length ?xs - 10) ?xs)
      = [Some [1], Some [2], Some [3], Some [4], Some [5], Some [6], Some [7], Some [8],
         Some [9], Some [10]]"
    by simp
  show ?thesis
    by (intro conjI, rule a, rule trans [OF b c])
qed

section \<open>The upload scheduler: backoff\<close>

lemma sched_update_inv:
  assumes "min_upload_interval cfg \<le> max_upload_interval cfg"
    and "current_upload_interval sc \<le> max_upload_interval cfg"
  shows "current_upload_interval (sched_update cfg t ok sc) \<le> max_upload_interval cfg"
  using assms by (simp add: sched_update_def Let_def)

lemma main_iteration_inv:
  assumes "min_upload_interval cfg \<le> max_upload_interval cfg"
    and "current_upload_interval (fst st) \<le> max_upload_interval cfg"
  shows "current_upload_interval (fst (main_iteration_v3 cfg tk st)) \<le> max_upload_interval cfg"
  using assms
  by (cases st) (simp add: main_iteration_v3_def Let_def sched_update_inv split: prod.splits)

lemma run_v3_inv:
  assumes "min_upload_interval cfg \<le> max_upload_interval cfg"
    and "current_upload_interval (fst st) \<le> max_upload_interval cfg"
  shows "current_upload_interval (fst (run_v3 cfg es st)) \<le> max_upload_interval cfg"
  using assms(2)
proof (induction es arbitrary: st)
  case Nil
  then show ?case by simp
next
  case (Cons e es)
  show ?case
  proof (cases e)
    case (Tick tk)
    then show ?thesis
      using Cons.IH [OF main_iteration_inv [OF assms(1) Cons.prems, of tk]] by simp
  next
    case (BleWrite d)
    then show ?thesis using Cons.IH [of "(fst st, irq_write_v3 d (snd st))"] Cons.prems by simp
  qed
qed

text \<open>Fewer failures than the threshold move only the counter.\<close>

lemma failed_attempts_below:
  assumes "consecutive_failures sc + length ts < max_consecutive_failures cfg"
  shows "failed_attempts cfg ts sc = sc\<lparr>consecutive_failures := consecutive_failures sc + length ts\<rparr>"
  using assms
proof (induction ts arbitrary: sc)
  case Nil
  then show ?case by simp
next
  case (Cons t ts)
  have s: "sched_update cfg t False sc = sc\<lparr>consecutive_failures := consecutive_failures sc + 1\<rparr>"
    using Cons.prems by (simp add: sched_update_def Let_def)
  show ?case using Cons.prems by (simp add: s Cons.IH)
qed

lemma failed_attempts_append:
  "failed_attempts cfg (ts @ us) sc = failed_attempts cfg us (failed_attempts cfg ts sc)"
  by (induction ts arbitrary: sc) simp_all

text \<open>One full run of failures doubles the interval once, up to the maximum.\<close>

lemma failed_run:
  assumes "0 < max_consecutive_failures cfg" and "consecutive_failures sc = 0"
    and "length ts = max_consecutive_failures cfg"
  shows "failed_attempts cfg ts sc
       = sc\<lparr>current_upload_interval := min (current_upload_interval sc * 2) (max_upload_interval cfg),
            consecutive_failures := 0\<rparr>"
proof -
  from assms obtain us t where ts: "ts = us @ [t]"
    by (metis length_greater_0_conv rev_exhaust)
  with assms have l: "consecutive_failures sc + length us < max_consecutive_failures cfg"
    by simp
  have "failed_attempts cfg ts sc
      = sched_update cfg t False (sc\<lparr>consecutive_failures := consecutive_failures sc + length us\<rparr>)"
    by (simp add: ts failed_attempts_append failed_attempts_below [OF l])
  also have "\<dots> = sc\<lparr>current_upload_interval := min (current_upload_interval sc * 2) (max_upload_interval cfg),
            consecutive_failures := 0\<rparr>"
    using assms ts by (simp add: sched_update_def Let_def)
  finally show ?thesis .
qed

lemma min_scaled:
  fixes a M p :: rat
  assumes "0 \<le> M" and "1 \<le> p"
  shows "min (min a M * p) M = min (a * p) M"
proof (cases "a \<le> M")
  case True
  then show ?thesis by (simp add: min_def)
next
  case False
  then have a: "M < a" by simp
  have "M * 1 \<le> M * p" using assms by (intro mult_left_mono) simp_all
  moreover have "a * 1 \<le> a * p" using assms a by (intro mult_left_mono) simp_all
  ultimately show ?thesis using a by (simp add: min_def)
qed

lemma failed_runs:
  assumes "0 < max_consecutive_failures cfg" and "0 \<le> max_upload_interval cfg"
    and "consecutive_failures sc = 0"
    and "current_upload_interval sc \<le> max_upload_interval cfg"
    and "length ts = k * max_consecutive_failures cfg"
  shows "failed_attempts cfg ts sc
       = sc\<lparr>current_upload_interval :=
               min (current_upload_interval sc * 2 ^ k) (max_upload_interval cfg)\<rparr>"
  using assms(3,4,5)
proof (induction k arbitrary: ts sc)
  case 0
  then show ?case by (simp add: min_def)
next
  case (Suc k)
  let ?N = "max_consecutive_failures cfg"
  let ?M = "max_upload_interval cfg"
  define us where "us = take ?N ts"
  define vs where "vs = drop ?N ts"
  have ts: "ts = us @ vs" by (simp add: us_def vs_def)
  have lu: "length us = ?N" using Suc.prems by (simp add: us_def)
  have lv: "length vs = k * ?N" using Suc.prems by (simp add: vs_def)
  let ?sc1 = "sc\<lparr>current_upload_interval := min (current_upload_interval sc * 2) ?M,
            consecutive_failures := 0\<rparr>"
  have one: "failed_attempts cfg us sc = ?sc1"
    by (rule failed_run [OF assms(1) Suc.prems(1) lu])
  have p: "(1::rat) \<le> 2 ^ k" by simp
  have m: "min (min (current_upload_interval sc * 2) ?M * 2 ^ k) ?M
         = min (current_upload_interval sc * 2 ^ Suc k) ?M"
    using min_scaled [OF assms(2) p, of "current_upload_interval sc * 2"]
    by (simp add: mult.assoc)
  have "failed_attempts cfg ts sc = failed_attempts cfg vs ?sc1"
    by (simp add: ts failed_attempts_append one)
  also have "\<dots> = ?sc1\<lparr>current_upload_interval :=
                        min (current_upload_interval ?sc1 * 2 ^ k) ?M\<rparr>"
    by (rule Suc.IH) (simp_all add: lv)
  also have "\<dots> = sc\<lparr>current_upload_interval :=
                        min (current_upload_interval sc * 2 ^ Suc k) ?M\<rparr>"
    using Suc.prems(1) m by simp
  finally show ?case .
qed

text \<open>
  C4. With a positive threshold and \<open>min_upload_interval \<le> max_upload_interval\<close>,
  \<open>0 \<le> max_upload_interval\<close>: after \<open>k\<close> complete runs of threshold-many failed
  attempts, counted from the start of \<open>main\<close> or from a successful upload, the
  current interval is \<open>min (min_upload_interval * 2 ^ k) max_upload_interval\<close>. The
  interval never exceeds the maximum: in every state the main loop of Blue_3 reaches
  through passes of the loop and write events of the wireless link, and across every
  single update of the scheduler (the text shared with Blue_4_).
\<close>

theorem backoff_closed_form_and_bound:
  assumes "0 < max_consecutive_failures cfg"
    and "0 \<le> max_upload_interval cfg"
    and "min_upload_interval cfg \<le> max_upload_interval cfg"
  shows "(length ts = k * max_consecutive_failures cfg \<longrightarrow>
            current_upload_interval (failed_attempts cfg ts (sched_init cfg))
              = min (min_upload_interval cfg * 2 ^ k) (max_upload_interval cfg)
          \<and> current_upload_interval (failed_attempts cfg ts (sched_update cfg t True sc))
              = min (min_upload_interval cfg * 2 ^ k) (max_upload_interval cfg))
       \<and> current_upload_interval (fst (run_v3 cfg es (sched_init cfg, globals_init)))
            \<le> max_upload_interval cfg
       \<and> (current_upload_interval sc \<le> max_upload_interval cfg \<longrightarrow>
            current_upload_interval (sched_update cfg t ok sc) \<le> max_upload_interval cfg)"
proof (intro conjI impI)
  assume l: "length ts = k * max_consecutive_failures cfg"
  show "current_upload_interval (failed_attempts cfg ts (sched_init cfg))
      = min (min_upload_interval cfg * 2 ^ k) (max_upload_interval cfg)"
    using failed_runs [OF assms(1,2) _ _ l, of "sched_init cfg"] assms(3)
    by (simp add: sched_init_def)
  show "current_upload_interval (failed_attempts cfg ts (sched_update cfg t True sc))
      = min (min_upload_interval cfg * 2 ^ k) (max_upload_interval cfg)"
    using failed_runs [OF assms(1,2) _ _ l, of "sched_update cfg t True sc"] assms(3)
    by (simp add: sched_update_def)
next
  show "current_upload_interval (fst (run_v3 cfg es (sched_init cfg, globals_init)))
      \<le> max_upload_interval cfg"
    using run_v3_inv [OF assms(3), of "(sched_init cfg, globals_init)" es] assms(3)
    by (simp add: sched_init_def)
next
  assume "current_upload_interval sc \<le> max_upload_interval cfg"
  then show "current_upload_interval (sched_update cfg t ok sc) \<le> max_upload_interval cfg"
    by (rule sched_update_inv [OF assms(3)])
qed

theorem backoff_closed_form_and_bound_witness:
  "current_upload_interval (failed_attempts cfg_v3 [1, 2, 3, 4, 5, 6] (sched_init cfg_v3)) = 2
   \<and> current_upload_interval
       (failed_attempts cfg_v3 [1, 2, 3, 4, 5, 6, 7, 8, 9, 10, 11, 12] (sched_init cfg_v3)) = 5"
proof -
  have h1: "0 < max_consecutive_failures cfg_v3" by (simp add: cfg_v3_def)
  have h2: "0 \<le> max_upload_interval cfg_v3" by (simp add: cfg_v3_def)
  have h3: "min_upload_interval cfg_v3 \<le> max_upload_interval cfg_v3" by (simp add: cfg_v3_def)
  have l2: "length [1, 2, 3, 4, 5, 6 :: rat] = 2 * max_consecutive_failures cfg_v3"
    by (simp add: cfg_v3_def)
  have l4: "length [1, 2, 3, 4, 5, 6, 7, 8, 9, 10, 11, 12 :: rat]
          = 4 * max_consecutive_failures cfg_v3"
    by (simp add: cfg_v3_def)
  note t2 = backoff_closed_form_and_bound
      [OF h1 h2 h3, THEN conjunct1, THEN mp, OF l2, THEN conjunct1]
  note t4 = backoff_closed_form_and_bound
      [OF h1 h2 h3, THEN conjunct1, THEN mp, OF l4, THEN conjunct1]
  have "min (min_upload_interval cfg_v3 * 2 ^ 2) (max_upload_interval cfg_v3) = 2"
    by (simp add: cfg_v3_def)
  moreover have "min (min_upload_interval cfg_v3 * 2 ^ 4) (max_upload_interval cfg_v3) = 5"
    by (simp add: cfg_v3_def)
  ultimately show ?thesis using t2 t4 by simp
qed

section \<open>Formatting of the coordinates\<close>

lemma is_digit_char_of: "d < 10 \<Longrightarrow> is_digit (digit_char d)"
proof -
  assume "d < 10"
  then have "d = 0 \<or> d = 1 \<or> d = 2 \<or> d = 3 \<or> d = 4 \<or> d = 5 \<or> d = 6 \<or> d = 7
           \<or> d = 8 \<or> d = 9"
    by arith
  then show ?thesis
    by (elim disjE) (simp_all add: is_digit_def digit_char_def)
qed

lemma show_nat_digits: "list_all is_digit (show_nat n)"
proof (induction n rule: show_nat.induct)
  case (1 n)
  show ?case
  proof (cases "n < 10")
    case True
    then show ?thesis by (subst show_nat.simps) (simp add: is_digit_char_of)
  next
    case False
    have "n mod 10 < 10" by simp
    then have "is_digit (digit_char (n mod 10))" by (rule is_digit_char_of)
    with False 1 show ?thesis by (subst show_nat.simps) simp
  qed
qed

lemma show_nat_nonempty: "show_nat n \<noteq> []"
  by (subst show_nat.simps) simp

lemma show_nat_length: "0 < k \<Longrightarrow> n < 10 ^ k \<Longrightarrow> length (show_nat n) \<le> k"
proof (induction n arbitrary: k rule: show_nat.induct)
  case (1 n)
  show ?case
  proof (cases "n < 10")
    case True
    then show ?thesis using "1.prems" by (subst show_nat.simps) simp
  next
    case False
    then obtain j where k: "k = Suc j" using "1.prems" by (cases k) auto
    have j0: "0 < j"
    proof (rule ccontr)
      assume "\<not> 0 < j"
      then have "k = 1" using k by simp
      with "1.prems" False show False by simp
    qed
    have "n div 10 < 10 ^ j" using "1.prems" k by (simp add: less_mult_imp_div_less mult.commute)
    then have "length (show_nat (n div 10)) \<le> j" using "1.IH" [OF False j0] by simp
    then show ?thesis using False k by (subst show_nat.simps) simp
  qed
qed

lemma not_digit_point: "\<not> is_digit (CHR ''.'')"
  by (simp add: is_digit_def)

lemma not_digit_minus: "\<not> is_digit (CHR ''-'')"
  by (simp add: is_digit_def)

lemma digit_zero: "is_digit (CHR ''0'')"
  by (simp add: is_digit_def)

lemma digits_then_point:
  assumes "list_all is_digit ip" and "ip \<noteq> []" and "list_all is_digit fp" and "length fp = 6"
  shows "six_fraction_digits (ip @ CHR ''.'' # fp)"
    and "six_fraction_digits (CHR ''-'' # ip @ CHR ''.'' # fp)"
proof -
  have all: "\<And>c. c \<in> set ip \<Longrightarrow> is_digit c" using assms(1) by (simp add: list_all_iff)
  have tw: "takeWhile is_digit (ip @ CHR ''.'' # fp) = ip"
    using all by (simp add: takeWhile_append2 not_digit_point)
  have dw: "dropWhile is_digit (ip @ CHR ''.'' # fp) = CHR ''.'' # fp"
    using all by (simp add: dropWhile_append2 not_digit_point)
  obtain c cs where ip: "ip = c # cs" using assms(2) by (cases ip) auto
  then have "is_digit c" using all by simp
  then have c: "c \<noteq> CHR ''-''" using not_digit_minus by auto
  have "six_fraction_digits ((c # cs) @ CHR ''.'' # fp)"
    unfolding six_fraction_digits_def using c tw dw assms(3,4) ip by (simp add: Let_def)
  then show "six_fraction_digits (ip @ CHR ''.'' # fp)" by (simp add: ip)
  show "six_fraction_digits (CHR ''-'' # ip @ CHR ''.'' # fp)"
    unfolding six_fraction_digits_def using tw dw assms(2,3,4) by (simp add: Let_def)
qed

lemma format_6f_six_digits: "six_fraction_digits (format_6f x)"
proof -
  define n where "n = round_half_even (\<bar>x\<bar> * 1000000)"
  define fp where "fp = show_nat (n mod 1000000)"
  define pad where "pad = replicate (6 - length fp) (CHR ''0'') @ fp"
  have "n mod 1000000 < 10 ^ 6" by simp
  then have len: "length fp \<le> 6" unfolding fp_def by (intro show_nat_length) simp_all
  then have l6: "length pad = 6" by (simp add: pad_def)
  have "list_all is_digit fp" unfolding fp_def by (rule show_nat_digits)
  then have d: "list_all is_digit pad"
    by (auto simp: pad_def list_all_iff digit_zero)
  have f: "format_6f x = (if x < 0 then ''-'' else []) @ show_nat (n div 1000000) @ CHR ''.'' # pad"
    by (simp add: format_6f_def Let_def n_def fp_def pad_def)
  show ?thesis
    unfolding f
    using digits_then_point [OF show_nat_digits show_nat_nonempty d l6, of "n div 1000000"]
    by simp
qed




lemma replicate_numeral: "replicate (numeral k) x = x # replicate (pred_numeral k) x"
  by (simp add: numeral_eq_Suc)

lemma find_scale_numeral:
  "find_scale (numeral f) k q =
     (if q * 10 ^ k = of_int \<lfloor>q * 10 ^ k\<rfloor> then k else find_scale (pred_numeral f) (Suc k) q)"
  by (simp add: numeral_eq_Suc)

lemma show_nat_0: "show_nat 0 = ''0''"
  by (simp add: show_nat.simps digit_char_def)

lemma format_6f_0: "format_6f 0 = ''0.000000''"
  by (simp add: format_6f_def round_half_even_def show_nat_0 replicate_numeral)

lemma py_str_float_0: "py_str_float 0 = ''0.0''"
  by (simp add: py_str_float_def show_nat_0 find_scale_numeral)

lemma short_fraction_rejected: "\<not> six_fraction_digits ''0.0''"
  by (simp add: six_fraction_digits_def is_digit_def)

section \<open>A failed upload attempt\<close>

lemma upload_data_v3_failed_flags:
  assumes "fst (upload_data_v3 now cs ok g) = False"
  shows "gps_data_valid (snd (upload_data_v3 now cs ok g)) = gps_data_valid g
       \<and> ble_data_received (snd (upload_data_v3 now cs ok g)) = ble_data_received g
       \<and> user_data (snd (upload_data_v3 now cs ok g)) = user_data g"
  using assms
  by (auto simp: upload_data_v3_def generate_payload_v3_def get_current_time_str_def
           split: if_splits prod.splits option.splits)

lemma round_example_x: "round_half_even (\<bar>- (15197927 / 1250)\<bar> * 1000000) = 12158341600"
  by (simp add: round_half_even_def)

lemma round_example_y: "round_half_even (\<bar>1489299 / 400\<bar> * 1000000) = 3723247500"
  by (simp add: round_half_even_def)

lemma show_nat_12158: "show_nat 12158 = ''12158''"
  by (simp add: show_nat.simps digit_char_def)

lemma show_nat_341600: "show_nat 341600 = ''341600''"
  by (simp add: show_nat.simps digit_char_def)

lemma show_nat_3723: "show_nat 3723 = ''3723''"
  by (simp add: show_nat.simps digit_char_def)

lemma show_nat_247500: "show_nat 247500 = ''247500''"
  by (simp add: show_nat.simps digit_char_def)

lemma format_example_x: "format_6f (- (15197927 / 1250)) = ''-12158.341600''"
  unfolding format_6f_def Let_def round_example_x
  by (simp add: show_nat_12158 show_nat_341600)

lemma format_example_y: "format_6f (1489299 / 400) = ''3723.247500''"
  unfolding format_6f_def Let_def round_example_y
  by (simp add: show_nat_3723 show_nat_247500)

lemma example_ready_fields:
  "gps_data_valid example_ready" "ble_data_received example_ready"
  "nmea_x example_ready = - (15197927 / 1250)" "nmea_y example_ready = 1489299 / 400"
  "user_data example_ready = [''a'', ''b'']" "uploader_last_time_sec example_ready = 0"
  by (simp_all add: example_ready_def globals_init_def)

lemma example_payload_v3:
  "generate_payload_v3 10 ''2025-01-01 00:00:10'' example_ready
   = (Some [(''device_id'', JString ''3''),
            (''position_x'', JString ''-12158.341600''),
            (''position_y'', JString ''3723.247500''),
            (''time_stamp'', JString ''2025-01-01 00:00:10''),
            (''user_data'', JArray [JString ''a'', JString ''b''])],
      example_ready\<lparr>uploader_last_time_str := ''2025-01-01 00:00:10'',
                      uploader_last_time_sec := 10\<rparr>)"
  by (simp add: generate_payload_v3_def get_current_time_str_def example_ready_fields
        device_id_def format_example_x format_example_y)

lemma example_upload_fails:
  "upload_data_v3 10 ''2025-01-01 00:00:10'' False example_ready
   = (False, example_ready\<lparr>uploader_last_time_str := ''2025-01-01 00:00:10'',
                      uploader_last_time_sec := 10\<rparr>)"
  unfolding upload_data_v3_def example_payload_v3
  by (simp add: example_ready_fields)

lemma example_read_gps: "read_gps_data 1 10 None example_ready = example_ready"
  by (simp add: read_gps_data_def)

lemma example_iteration:
  "main_iteration_v3 cfg_v3 example_failing_tick (sched_init cfg_v3, example_ready)
   = (\<lparr>last_upload_time = 0, current_upload_interval = 1 / 2, consecutive_failures = 1\<rparr>,
      example_ready\<lparr>uploader_last_time_str := ''2025-01-01 00:00:10'',
                      uploader_last_time_sec := 10\<rparr>)"
  by (simp add: main_iteration_v3_def example_failing_tick_def example_read_gps
        example_upload_fails sched_init_def cfg_v3_def sched_update_def Let_def)

text \<open>
  C5, on the code. When a pass of the main loop of Blue_3 is due, the link is up and
  \<open>upload_data\<close> returns false, then \<open>consecutive_failures\<close> is incremented, or reset
  to 0 together with a doubling of the interval (capped) when it reaches the threshold,
  and the attempt leaves the position-valid flag, the batch flag and the batch as
  \<open>read_gps_data\<close> left them; but \<open>last_upload_time\<close> keeps its value: the time of
  the failed attempt is not recorded (the assignment sits in the success branch only).
\<close>

theorem failed_attempt_effect:
  assumes "current_upload_interval sc \<le> tick_time tk - last_upload_time sc"
    and "isconnected tk"
    and "fst (upload_data_v3 (payload_now tk) (clock_str tk) (http_ok tk)
               (read_gps_data 1 (gps_now tk) (uart_text tk) g)) = False"
  shows "last_upload_time (fst (main_iteration_v3 cfg tk (sc, g))) = last_upload_time sc
     \<and> consecutive_failures (fst (main_iteration_v3 cfg tk (sc, g)))
         = (if max_consecutive_failures cfg \<le> consecutive_failures sc + 1 then 0
            else consecutive_failures sc + 1)
     \<and> current_upload_interval (fst (main_iteration_v3 cfg tk (sc, g)))
         = (if max_consecutive_failures cfg \<le> consecutive_failures sc + 1
            then min (current_upload_interval sc * 2) (max_upload_interval cfg)
            else current_upload_interval sc)
     \<and> gps_data_valid (snd (main_iteration_v3 cfg tk (sc, g)))
         = gps_data_valid (read_gps_data 1 (gps_now tk) (uart_text tk) g)
     \<and> ble_data_received (snd (main_iteration_v3 cfg tk (sc, g)))
         = ble_data_received (read_gps_data 1 (gps_now tk) (uart_text tk) g)
     \<and> user_data (snd (main_iteration_v3 cfg tk (sc, g)))
         = user_data (read_gps_data 1 (gps_now tk) (uart_text tk) g)"
proof -
  let ?g1 = "read_gps_data 1 (gps_now tk) (uart_text tk) g"
  let ?u = "upload_data_v3 (payload_now tk) (clock_str tk) (http_ok tk) ?g1"
  obtain g2 where u: "?u = (False, g2)" using assms(3) by (cases ?u) simp
  have m: "main_iteration_v3 cfg tk (sc, g) = (sched_update cfg (tick_time tk) False sc, snd ?u)"
    using assms(1,2) by (simp add: main_iteration_v3_def Let_def u)
  show ?thesis
    unfolding m using upload_data_v3_failed_flags [OF assms(3)]
    by (simp add: sched_update_def Let_def)
qed

theorem failed_attempt_effect_witness:
  "last_upload_time
       (fst (main_iteration_v3 cfg_v3 example_failing_tick (sched_init cfg_v3, example_ready)))
     = 0
   \<and> consecutive_failures
       (fst (main_iteration_v3 cfg_v3 example_failing_tick (sched_init cfg_v3, example_ready)))
     = 1
   \<and> gps_data_valid
       (snd (main_iteration_v3 cfg_v3 example_failing_tick (sched_init cfg_v3, example_ready)))
   \<and> ble_data_received
       (snd (main_iteration_v3 cfg_v3 example_failing_tick (sched_init cfg_v3, example_ready)))"
proof -
  have h1: "current_upload_interval (sched_init cfg_v3)
          \<le> tick_time example_failing_tick - last_upload_time (sched_init cfg_v3)"
    by (simp add: sched_init_def cfg_v3_def example_failing_tick_def)
  have h2: "isconnected example_failing_tick" by (simp add: example_failing_tick_def)
  have h3: "fst (upload_data_v3 (payload_now example_failing_tick)
             (clock_str example_failing_tick) (http_ok example_failing_tick)
             (read_gps_data 1 (gps_now example_failing_tick) (uart_text example_failing_tick)
                example_ready)) = False"
    by (simp add: example_failing_tick_def example_read_gps example_upload_fails)
  have g: "read_gps_data 1 (gps_now example_failing_tick) (uart_text example_failing_tick)
             example_ready = example_ready"
    by (simp add: example_failing_tick_def example_read_gps)
  from failed_attempt_effect [OF h1 h2 h3, of cfg_v3]
  show ?thesis
    unfolding g by (simp add: sched_init_def cfg_v3_def example_ready_fields)
qed

text \<open>
  The interval that the failure branch grows is only ever compared with the time since
  \<open>last_upload_time\<close>, which a failure does not move: once the maximum interval has
  passed since the last success, the pass after a failed attempt is due again.
\<close>

lemma still_due_after_failure:
  assumes "current_upload_interval sc \<le> max_upload_interval cfg"
    and "max_upload_interval cfg \<le> t' - last_upload_time sc"
  shows "current_upload_interval (sched_update cfg t False sc)
       \<le> t' - last_upload_time (sched_update cfg t False sc)"
  using assms by (auto simp: sched_update_def Let_def intro: min.coboundedI2)

text \<open>
  In the example pass of Blue_3 at time 10 the upload is attempted and fails;
  afterwards \<open>last_upload_time\<close> is still 0.
\<close>

theorem failed_attempt_keeps_last_upload_time:
  "tick_time example_failing_tick = 10
   \<and> fst (upload_data_v3 (payload_now example_failing_tick) (clock_str example_failing_tick)
            (http_ok example_failing_tick)
            (read_gps_data 1 (gps_now example_failing_tick) (uart_text example_failing_tick)
               example_ready)) = False
   \<and> last_upload_time
       (fst (main_iteration_v3 cfg_v3 example_failing_tick (sched_init cfg_v3, example_ready)))
     = 0"
  by (simp add: example_iteration)
     (simp add: example_failing_tick_def example_read_gps example_upload_fails)

section \<open>Building the telemetry record\<close>

text \<open>
  C7, as the code has it. In Blue_3 \<open>generate_payload\<close> returns \<open>None\<close> exactly
  when the position-valid flag or the batch flag is false. In Blue_4_ it returns
  \<open>None\<close> exactly when \<open>pool_data.get_new()\<close> does, that is when the write cursor is
  below 4; the position-valid flag is not consulted.
\<close>

theorem generate_payload_none_conditions:
  "(fst (generate_payload_v3 now cs g) = None
      \<longleftrightarrow> \<not> gps_data_valid g \<or> \<not> ble_data_received g)
   \<and> (fst (generate_payload_v4 now cs g) = None \<longleftrightarrow> index (pool_data g) < 4)"
  by (auto simp: generate_payload_v3_def generate_payload_v4_def get_new_def
        get_current_time_str_def split: prod.splits option.splits if_splits)

lemma example_pool: "pushes [[1], [2], [3], [4 :: rat]] (data_pool_init 10)
   = \<lparr>pool_size = 10,
      buffer = [Some [1], Some [2], Some [3], Some [4], None, None, None, None, None, None],
      index = 4\<rparr>"
  by code_simp

lemma example_pool_ready_fields:
  "gps_data_valid example_pool_ready = False"
  "nmea_x example_pool_ready = 0" "nmea_y example_pool_ready = 0"
  "uploader_last_time_sec example_pool_ready = 0"
  "pool_data example_pool_ready = \<lparr>pool_size = 10,
      buffer = [Some [1], Some [2], Some [3], Some [4], None, None, None, None, None, None],
      index = 4\<rparr>"
  by (simp_all add: example_pool_ready_def globals_init_def example_pool del: pushes.simps)

lemma example_get_new:
  "get_new 4 \<lparr>pool_size = 10,
      buffer = [Some [1], Some [2], Some [3], Some [4 :: rat], None, None, None, None, None, None],
      index = 4\<rparr>
   = (Some [Some [1], Some [2], Some [3], Some [4]],
      \<lparr>pool_size = 10,
      buffer = [Some [1], Some [2], Some [3], Some [4], None, None, None, None, None, None],
      index = 4\<rparr>)"
  by (simp add: get_new_def py_slice_def)

theorem generate_payload_none_conditions_witness:
  "fst (generate_payload_v3 10 ''2025-01-01 00:00:10'' globals_init) = None
   \<and> fst (generate_payload_v3 10 ''2025-01-01 00:00:10'' example_ready) \<noteq> None
   \<and> fst (generate_payload_v4 10 ''2025-01-01 00:00:10'' globals_init) = None
   \<and> fst (generate_payload_v4 10 ''2025-01-01 00:00:10'' example_pool_ready) \<noteq> None"
  using generate_payload_none_conditions [of 10 "''2025-01-01 00:00:10''" globals_init]
        generate_payload_none_conditions [of 10 "''2025-01-01 00:00:10''" example_ready]
        generate_payload_none_conditions [of 10 "''2025-01-01 00:00:10''" example_pool_ready]
  by (simp add: example_ready_fields example_pool_ready_fields)
     (simp add: globals_init_def data_pool_init_def)

text \<open>
  C7 as stated fails in Blue_4_: with four samples pushed and the position-valid flag
  false, a record is built (with the initial coordinates).
\<close>

theorem payload_built_without_fix:
  "gps_data_valid example_pool_ready = False
   \<and> fst (generate_payload_v4 10 ''2025-01-01 00:00:10'' example_pool_ready)
     = Some [(''device_id'', JString ''3''),
             (''position_x'', JString ''0.000000''),
             (''position_y'', JString ''0.000000''),
             (''time_stamp'', JString ''2025-01-01 00:00:10''),
             (''user_data'', JArray [JArray [JNumber 1], JArray [JNumber 2],
                                     JArray [JNumber 3], JArray [JNumber 4]])]"
  by (simp add: generate_payload_v4_def example_pool_ready_fields example_get_new
        get_current_time_str_def device_id_def format_6f_0 json_of_slot_def)

text \<open>
  C8, as the code has it. In the records built by Blue_3 and Blue_4_ the fields
  \<open>position_x\<close> and \<open>position_y\<close> are the coordinates printed with \<open>%.6f\<close>, and
  such a string has exactly six fractional digits, for every value of the coordinates.
\<close>

theorem payload_positions_six_digits:
  "(fst (generate_payload_v3 now cs g) = Some p \<longrightarrow>
       map_of p ''position_x'' = Some (JString (format_6f (nmea_x g)))
     \<and> map_of p ''position_y'' = Some (JString (format_6f (nmea_y g))))
   \<and> (fst (generate_payload_v4 now cs g) = Some q \<longrightarrow>
       map_of q ''position_x'' = Some (JString (format_6f (nmea_x g)))
     \<and> map_of q ''position_y'' = Some (JString (format_6f (nmea_y g))))
   \<and> six_fraction_digits (format_6f (nmea_x g))
   \<and> six_fraction_digits (format_6f (nmea_y g))"
proof (intro conjI impI)
  assume "fst (generate_payload_v3 now cs g) = Some p"
  then have p: "p = [(''device_id'', JString device_id),
                    (''position_x'', JString (format_6f (nmea_x g))),
                    (''position_y'', JString (format_6f (nmea_y g))),
                    (''time_stamp'', JString (fst (get_current_time_str 1 now cs g))),
                    (''user_data'',
                       JArray (map JString
                         (if length (user_data g) > 200
                          then drop (length (user_data g) - 200) (user_data g)
                          else user_data g)))]"
    by (auto simp: generate_payload_v3_def get_current_time_str_def
             split: if_splits prod.splits)
  show "map_of p ''position_x'' = Some (JString (format_6f (nmea_x g)))"
    unfolding p by simp
  show "map_of p ''position_y'' = Some (JString (format_6f (nmea_y g)))"
    unfolding p by simp
next
  assume "fst (generate_payload_v4 now cs g) = Some q"
  then obtain ts ud where q: "q = [(''device_id'', JString device_id),
                    (''position_x'', JString (format_6f (nmea_x g))),
                    (''position_y'', JString (format_6f (nmea_y g))),
                    (''time_stamp'', JString ts),
                    (''user_data'', ud)]"
    by (auto simp: generate_payload_v4_def get_current_time_str_def get_new_def
             split: if_splits prod.splits option.splits)
  show "map_of q ''position_x'' = Some (JString (format_6f (nmea_x g)))"
    unfolding q by simp
  show "map_of q ''position_y'' = Some (JString (format_6f (nmea_y g)))"
    unfolding q by simp
next
  show "six_fraction_digits (format_6f (nmea_x g))" by (rule format_6f_six_digits)
  show "six_fraction_digits (format_6f (nmea_y g))" by (rule format_6f_six_digits)
qed

theorem payload_positions_six_digits_witness:
  "map_of [(''device_id'', JString ''3''),
           (''position_x'', JString ''-12158.341600''),
           (''position_y'', JString ''3723.247500''),
           (''time_stamp'', JString ''2025-01-01 00:00:10''),
           (''user_data'', JArray [JString ''a'', JString ''b''])] ''position_x''
     = Some (JString ''-12158.341600'')
   \<and> six_fraction_digits ''-12158.341600''
   \<and> six_fraction_digits ''3723.247500''"
proof -
  let ?p = "[(''device_id'', JString ''3''),
           (''position_x'', JString ''-12158.341600''),
           (''position_y'', JString ''3723.247500''),
           (''time_stamp'', JString ''2025-01-01 00:00:10''),
           (''user_data'', JArray [JString ''a'', JString ''b''])]"
  have h: "fst (generate_payload_v3 10 ''2025-01-01 00:00:10'' example_ready) = Some ?p"
    by (simp add: example_payload_v3)
  note t = payload_positions_six_digits [of 10 "''2025-01-01 00:00:10''" example_ready ?p]
  note a = t [THEN conjunct1, THEN mp, OF h, THEN conjunct1]
  note b = t [THEN conjunct2, THEN conjunct2, THEN conjunct1]
  note c = t [THEN conjunct2, THEN conjunct2, THEN conjunct2]
  show ?thesis
    using a b c unfolding example_ready_fields format_example_x format_example_y by (intro conjI)
qed

text \<open>
  C8 as stated fails in Blue_2, which prints the coordinates with \<open>str\<close>: at the
  initial coordinates the fields are \<open>0.0\<close>, with one fractional digit.
\<close>

theorem blue2_payload_position_not_six_digits:
  "generate_payload_v2 ''2025-01-01 00:00:10'' globals_init
     = Some [(''device_id'', JString ''3''),
             (''position_x'', JString ''0.0''),
             (''position_y'', JString ''0.0''),
             (''time_stamp'', JString ''2025-01-01 00:00:10''),
             (''user_data'', JArray [])]
   \<and> six_fraction_digits ''0.0'' = False"
  by (simp add: generate_payload_v2_def globals_init_def device_id_def py_str_float_0
        short_fraction_rejected)

end
